theory Spec2Isabelle
  imports Main "HOL-Library.Word" "HOL-Library.Sublist" "HOL-Library.AList"
begin

unbundle bit_operations_syntax

section \<open>Python strings\<close>

text \<open>
  A Python \<open>str\<close> is modelled as a \<open>string\<close> whose characters are the code points
  below 256 (Latin-1).  The string methods the program calls are written out for that
  range: \<open>lower\<close>, \<open>strip\<close>, \<open>split\<close>, the operator \<open>in\<close>, and \<open>str\<close> of an integer.
\<close>

definition lower_char :: "char \<Rightarrow> char" where
  "lower_char c =
     (let n = (of_char c :: nat)
      in if (65 \<le> n \<and> n \<le> 90) \<or> (192 \<le> n \<and> n \<le> 222 \<and> n \<noteq> 215)
         then char_of (n + 32) else c)"

definition lower :: "string \<Rightarrow> string" where
  "lower s = map lower_char s"

definition is_space :: "char \<Rightarrow> bool" where
  "is_space c =
     (let n = (of_char c :: nat)
      in (9 \<le> n \<and> n \<le> 13) \<or> (28 \<le> n \<and> n \<le> 32) \<or> n = 133 \<or> n = 160)"

definition strip :: "string \<Rightarrow> string" where
  "strip s = rev (dropWhile is_space (rev (dropWhile is_space s)))"

text \<open>\<open>s.split(sep)\<close> for a one-character separator: the empty string gives one empty field.\<close>

fun split_on :: "char \<Rightarrow> string \<Rightarrow> string list" where
  "split_on sep [] = [[]]"
| "split_on sep (c # cs) =
     (if c = sep then [] # split_on sep cs
      else (case split_on sep cs of
              [] \<Rightarrow> [[c]]
            | w # ws \<Rightarrow> (c # w) # ws))"

text \<open>\<open>s.split()\<close>: the maximal runs of characters that are not whitespace.\<close>

fun split_ws_acc :: "string \<Rightarrow> string \<Rightarrow> string list" where
  "split_ws_acc cur [] = (if cur = [] then [] else [rev cur])"
| "split_ws_acc cur (c # cs) =
     (if is_space c
      then (if cur = [] then split_ws_acc [] cs else rev cur # split_ws_acc [] cs)
      else split_ws_acc (c # cur) cs)"

definition split_ws :: "string \<Rightarrow> string list" where
  "split_ws s = split_ws_acc [] s"

text \<open>\<open>sub in s\<close> on strings.\<close>

fun contains :: "string \<Rightarrow> string \<Rightarrow> bool" where
  "contains sub [] = (sub = [])"
| "contains sub (c # cs) = (prefix sub (c # cs) \<or> contains sub cs)"

definition endswith :: "string \<Rightarrow> string \<Rightarrow> bool" where
  "endswith s suf = suffix suf s"

definition digit_char :: "nat \<Rightarrow> char" where
  "digit_char d = char_of (48 + d)"

fun str_nat :: "nat \<Rightarrow> string" where
  "str_nat n = (if n < 10 then [digit_char n] else str_nat (n div 10) @ [digit_char (n mod 10)])"

declare str_nat.simps [simp del]

definition str_int :: "int \<Rightarrow> string" where
  "str_int i = (if i < 0 then CHR ''-'' # str_nat (nat (- i)) else str_nat (nat i))"

section \<open>Exceptions\<close>

text \<open>
  The exception classes that the program raises, catches or can receive from the
  library calls it makes.  \<open>Exception msg\<close> is a plain \<open>Exception\<close> raised by the program
  itself; its message is rendered in English.  Every class below is a subclass of
  Python's \<open>Exception\<close>, so a handler \<open>except Exception\<close> catches all of them.
\<close>

datatype exn =
    ImportError
  | NoSuchProcess
  | AccessDenied
  | AttributeError
  | TypeError
  | KeyError
  | ValueError
  | JSONDecodeError
  | FileNotFoundError
  | IsADirectoryError
  | NotADirectoryError
  | PermissionError
  | OSError
  | Exception string

section \<open>The process probe\<close>

text \<open>
  \<open>platform.system()\<close>, the completed \<open>subprocess.run\<close> call and the \<open>psutil\<close> module
  are the environment of \<open>check_process_running\<close>.  A call of \<open>subprocess.run\<close> either
  raises or returns a return code and the captured standard output.  \<open>import psutil\<close>
  either raises or gives the entries of \<open>psutil.process_iter(['pid', 'name'])\<close>; reading
  an entry either raises or gives the process id and the name, where the name is
  \<open>None\<close> when psutil could not read it.
\<close>

datatype os = Darwin | Linux | Windows | OtherOS

record completed =
  returncode :: int
  stdout :: string

type_synonym proc_entry = "exn + (int \<times> string option)"

record probe_env =
  system :: os
  native :: "exn + completed"
  psutil :: "exn + proc_entry list"

text \<open>The Windows branch: the second column of every line that names the process.\<close>

fun tasklist_pids :: "string \<Rightarrow> string list \<Rightarrow> string list \<Rightarrow> string list" where
  "tasklist_pids process_name [] pids = pids"
| "tasklist_pids process_name (line # lines) pids =
     (if contains (lower process_name) (lower line)
      then (let parts = split_ws line
            in if length parts \<ge> 2
               then tasklist_pids process_name lines (pids @ [parts ! 1])
               else tasklist_pids process_name lines pids)
      else tasklist_pids process_name lines pids)"

text \<open>
  The fallback loop over \<open>psutil.process_iter\<close>.  Its inner handler catches
  \<open>NoSuchProcess\<close> and \<open>AccessDenied\<close> only; \<open>None.lower()\<close> raises \<open>AttributeError\<close>.
\<close>

fun psutil_scan :: "string \<Rightarrow> proc_entry list \<Rightarrow> string list \<Rightarrow> exn + string list" where
  "psutil_scan process_name [] pids = Inr pids"
| "psutil_scan process_name (Inl e # procs) pids =
     (if e = NoSuchProcess \<or> e = AccessDenied
      then psutil_scan process_name procs pids
      else Inl e)"
| "psutil_scan process_name (Inr (pid, None) # procs) pids = Inl AttributeError"
| "psutil_scan process_name (Inr (pid, Some name) # procs) pids =
     (if contains (lower process_name) (lower name)
      then psutil_scan process_name procs (pids @ [str_int pid])
      else psutil_scan process_name procs pids)"

text \<open>
  The body of the outer \<open>try\<close>: \<open>Inr (Some r)\<close> is a \<open>return r\<close> inside it, \<open>Inr None\<close>
  is falling out of it, \<open>Inl e\<close> is an exception raised in it.
\<close>

definition native_probe :: "probe_env \<Rightarrow> string \<Rightarrow> exn + (bool \<times> string list) option" where
  "native_probe env process_name =
     (if system env = Darwin \<or> system env = Linux then
        (case native env of
           Inl e \<Rightarrow> Inl e
         | Inr result \<Rightarrow>
             if returncode result = 0
             then Inr (Some (True, split_on (CHR 0x0A) (strip (stdout result))))
             else Inr None)
      else if system env = Windows then
        (case native env of
           Inl e \<Rightarrow> Inl e
         | Inr result \<Rightarrow>
             if returncode result = 0 \<and> contains (lower process_name) (lower (stdout result))
             then Inr (Some (True,
                    tasklist_pids process_name (split_on (CHR 0x0A) (strip (stdout result))) []))
             else Inr None)
      else Inr None)"

text \<open>
  The handler \<open>except Exception\<close> of the outer \<open>try\<close>: the psutil fallback, whose own
  handler catches \<open>ImportError\<close> only.
\<close>

definition fallback_probe :: "probe_env \<Rightarrow> string \<Rightarrow> exn + (bool \<times> string list) option" where
  "fallback_probe env process_name =
     (case (case psutil env of
              Inl e \<Rightarrow> Inl e
            | Inr procs \<Rightarrow> psutil_scan process_name procs []) of
        Inl e \<Rightarrow> if e = ImportError then Inr None else Inl e
      | Inr pids \<Rightarrow> if pids \<noteq> [] then Inr (Some (True, pids)) else Inr None)"

definition check_process_running :: "probe_env \<Rightarrow> string \<Rightarrow> exn + (bool \<times> string list)" where
  "check_process_running env process_name =
     (case (case native_probe env process_name of
              Inl e \<Rightarrow> fallback_probe env process_name
            | Inr r \<Rightarrow> Inr r) of
        Inl e \<Rightarrow> Inl e
      | Inr (Some r) \<Rightarrow> Inr r
      | Inr None \<Rightarrow> Inr (False, []))"

section \<open>Identifiers\<close>

text \<open>
  \<open>uuid.uuid4()\<close> draws 16 random bytes and sets the variant and version bits;
  \<open>str\<close> of a UUID is its 32 lower-case hexadecimal digits, grouped 8-4-4-4-12.
  The argument of \<open>uuid4\<close> is the value of the random bytes.
\<close>

definition hex_digit :: "nat \<Rightarrow> char" where
  "hex_digit n = ''0123456789abcdef'' ! n"

definition is_hex :: "char \<Rightarrow> bool" where
  "is_hex c = (c \<in> set ''0123456789abcdef'')"

definition hex_fixed :: "nat \<Rightarrow> 'a::len word \<Rightarrow> string" where
  "hex_fixed k w = map (\<lambda>i. hex_digit (unat (drop_bit (4 * (k - 1 - i)) w AND 0xF))) [0..<k]"

definition uuid4 :: "128 word \<Rightarrow> 128 word" where
  "uuid4 r =
     (let i1 = r AND NOT (push_bit 48 0xc000);
          i2 = i1 OR push_bit 48 0x8000;
          i3 = i2 AND NOT (push_bit 64 0xf000)
      in i3 OR push_bit 76 4)"

definition str_uuid :: "128 word \<Rightarrow> string" where
  "str_uuid u =
     (let h = hex_fixed 32 u
      in take 8 h @ ''-'' @ take 4 (drop 8 h) @ ''-'' @ take 4 (drop 12 h) @ ''-'' @
         take 4 (drop 16 h) @ ''-'' @ drop 20 h)"

text \<open>A syntactically valid UUID in canonical form, and one whose version digit is 4.\<close>

definition valid_uuid :: "string \<Rightarrow> bool" where
  "valid_uuid s =
     (length s = 36 \<and>
      list_all is_hex (take 8 s) \<and> s ! 8 = CHR ''-'' \<and>
      list_all is_hex (take 4 (drop 9 s)) \<and> s ! 13 = CHR ''-'' \<and>
      list_all is_hex (take 4 (drop 14 s)) \<and> s ! 18 = CHR ''-'' \<and>
      list_all is_hex (take 4 (drop 19 s)) \<and> s ! 23 = CHR ''-'' \<and>
      list_all is_hex (drop 24 s))"

definition is_version4 :: "string \<Rightarrow> bool" where
  "is_version4 s = (valid_uuid s \<and> s ! 14 = CHR ''4'')"

text \<open>
  \<open>s.encode()\<close> is UTF-8: a code point below 128 is one byte, one below 256 two.
  \<open>hexdigest()\<close> renders the 256 bits of a SHA-256 digest as 64 hexadecimal digits.
  The digest function itself belongs to \<open>hashlib\<close>, not to the program: it is a
  parameter of the model (the field \<open>sha256\<close> of the host below).
\<close>

definition encode_char :: "char \<Rightarrow> 8 word list" where
  "encode_char c =
     (let n = (of_char c :: nat)
      in if n < 128 then [of_nat n] else [of_nat (192 + n div 64), of_nat (128 + n mod 64)])"

definition encode :: "string \<Rightarrow> 8 word list" where
  "encode s = concat (map encode_char s)"

definition hexdigest :: "256 word \<Rightarrow> string" where
  "hexdigest d = hex_fixed 64 d"

section \<open>The data directory\<close>

text \<open>
  A path is the list of its components below the data directory that
  \<open>get_qoder_data_dir\<close> returns; the empty path is that directory.  The file system is
  an association list from paths to nodes.  A file holds either text, or bytes that
  \<open>json.load\<close> parses to the given value; \<open>json.load\<close> of text raises.  Numbers are
  integers here: the program never looks inside a value.
\<close>

datatype json =
    JNull
  | JBool bool
  | JNum int
  | JStr string
  | JArr "json list"
  | JObj "(string \<times> json) list"

datatype content = Text string | Json json

datatype node = File content | Dir

type_synonym path = "string list"

type_synonym fs = "(path \<times> node) list"

datatype action = Write path content | Rmtree path | Unlink path

text \<open>The progress lines that carry data; lines of fixed text are left out.\<close>

datatype event =
    Removed path
  | RemoveFailed path exn
  | CacheCleaned nat
  | IdentityCleaned nat
  | AdvancedCleaned nat
  | ConfigKeyRemoved string
  | ConfigFailed exn
  | ChatCleared nat
  | ChatFailed exn

text \<open>
  The host is what the program asks its surroundings: the process table at each probe,
  the operator's answer to each yes/no prompt, the random bytes of each \<open>uuid4\<close>, the
  digest function, which paths refuse removal or writing, and the state of the
  "preserve chat" check box.
\<close>

record host =
  probes :: "nat \<Rightarrow> probe_env"
  replies :: "nat \<Rightarrow> bool"
  urandom :: "nat \<Rightarrow> 128 word"
  sha256 :: "8 word list \<Rightarrow> 256 word"
  rm_denied :: "path \<Rightarrow> bool"
  wr_denied :: "path \<Rightarrow> bool"
  preserve_chat_checked :: bool

text \<open>
  The world is what the program changes: the files, the mutations done so far
  (\<open>trace\<close>, oldest first), the progress lines, and how many probes, answers and random
  draws have been used.
\<close>

record world =
  files :: fs
  trace :: "action list"
  journal :: "event list"
  probes_used :: nat
  replies_used :: nat
  rands_used :: nat

definition machine_id_file :: path where
  "machine_id_file = [''machineid'']"

definition storage_json_file :: path where
  "storage_json_file = [''User'', ''globalStorage'', ''storage.json'']"

definition path_exists :: "world \<Rightarrow> path \<Rightarrow> bool" where
  "path_exists w p = (map_of (files w) p \<noteq> None)"

definition is_dir :: "world \<Rightarrow> path \<Rightarrow> bool" where
  "is_dir w p = (map_of (files w) p = Some Dir)"

definition emit :: "bool \<Rightarrow> event \<Rightarrow> world \<Rightarrow> world" where
  "emit quiet ev w = (if quiet then w else w\<lparr>journal := journal w @ [ev]\<rparr>)"

text \<open>
  \<open>Path.unlink\<close>, \<open>shutil.rmtree\<close> and \<open>open(p, 'w')\<close> followed by the write.  Each
  either raises and leaves the files as they were, or succeeds and is recorded in the
  trace.  \<open>rmtree\<close> is refused when anything below the directory refuses removal.
\<close>

definition unlink :: "host \<Rightarrow> path \<Rightarrow> world \<Rightarrow> exn + world" where
  "unlink h p w =
     (case map_of (files w) p of
        None \<Rightarrow> Inl FileNotFoundError
      | Some Dir \<Rightarrow> Inl IsADirectoryError
      | Some (File c) \<Rightarrow>
          if rm_denied h p then Inl PermissionError
          else Inr (w\<lparr>files := AList.delete p (files w), trace := trace w @ [Unlink p]\<rparr>))"

definition rmtree :: "host \<Rightarrow> path \<Rightarrow> world \<Rightarrow> exn + world" where
  "rmtree h p w =
     (case map_of (files w) p of
        None \<Rightarrow> Inl FileNotFoundError
      | Some (File c) \<Rightarrow> Inl NotADirectoryError
      | Some Dir \<Rightarrow>
          if list_ex (\<lambda>(q, n). prefix p q \<and> rm_denied h q) (files w) then Inl PermissionError
          else Inr (w\<lparr>files := filter (\<lambda>(q, n). \<not> prefix p q) (files w),
                       trace := trace w @ [Rmtree p]\<rparr>))"

definition write_file :: "host \<Rightarrow> path \<Rightarrow> content \<Rightarrow> world \<Rightarrow> exn + world" where
  "write_file h p c w =
     (if map_of (files w) p = Some Dir then Inl IsADirectoryError
      else if wr_denied h p then Inl PermissionError
      else Inr (w\<lparr>files := AList.update p (File c) (files w), trace := trace w @ [Write p c]\<rparr>))"

text \<open>\<open>open(p, 'r')\<close> followed by \<open>json.load\<close>.\<close>

definition load_json :: "path \<Rightarrow> world \<Rightarrow> exn + json" where
  "load_json p w =
     (case map_of (files w) p of
        None \<Rightarrow> Inl FileNotFoundError
      | Some Dir \<Rightarrow> Inl IsADirectoryError
      | Some (File (Text t)) \<Rightarrow> Inl JSONDecodeError
      | Some (File (Json v)) \<Rightarrow> Inr v)"

text \<open>
  \<open>data[k] = v\<close>, \<open>data.keys()\<close> and \<open>del data[k]\<close>.  A dict keeps its insertion order:
  assigning to a key it has keeps the key's place, a new key goes last.
\<close>

fun set_item :: "json \<Rightarrow> string \<Rightarrow> json \<Rightarrow> exn + json" where
  "set_item (JObj d) k v = Inr (JObj (AList.update k v d))"
| "set_item _ k v = Inl TypeError"

fun keys_of :: "json \<Rightarrow> exn + string list" where
  "keys_of (JObj d) = Inr (map fst d)"
| "keys_of _ = Inl AttributeError"

fun del_item :: "json \<Rightarrow> string \<Rightarrow> exn + json" where
  "del_item (JObj d) k = (if k \<in> fst ` set d then Inr (JObj (AList.delete k d)) else Inl KeyError)"
| "del_item _ k = Inl TypeError"

definition fresh_uuid :: "host \<Rightarrow> world \<Rightarrow> string \<times> world" where
  "fresh_uuid h w = (str_uuid (uuid4 (urandom h (rands_used w))), w\<lparr>rands_used := Suc (rands_used w)\<rparr>)"

section \<open>Cleanup loops\<close>

text \<open>
  The loops of the program have one shape: for each path, if it exists, try to remove
  it; count a success, and report it unless the loop is silent; catch a failure, report
  it unless the loop is silent, and go on with the next path.
\<close>

datatype remover = ByRmtree | ByUnlink

definition remove :: "remover \<Rightarrow> host \<Rightarrow> path \<Rightarrow> world \<Rightarrow> exn + world" where
  "remove k h p w = (case k of ByRmtree \<Rightarrow> rmtree h p w | ByUnlink \<Rightarrow> unlink h p w)"

fun remove_each :: "remover \<Rightarrow> bool \<Rightarrow> host \<Rightarrow> path list \<Rightarrow> world \<times> nat \<Rightarrow> world \<times> nat" where
  "remove_each k quiet h [] (w, n) = (w, n)"
| "remove_each k quiet h (p # ps) (w, n) =
     (if path_exists w p then
        (case remove k h p w of
           Inr w' \<Rightarrow> remove_each k quiet h ps (emit quiet (Removed p) w', n + 1)
         | Inl e \<Rightarrow> remove_each k quiet h ps (emit quiet (RemoveFailed p e) w, n))
      else remove_each k quiet h ps (w, n))"

text \<open>The socket loop unlinks what \<open>glob\<close> returned without asking whether it exists.\<close>

fun unlink_each :: "host \<Rightarrow> path list \<Rightarrow> world \<times> nat \<Rightarrow> world \<times> nat" where
  "unlink_each h [] (w, n) = (w, n)"
| "unlink_each h (p # ps) (w, n) =
     (case unlink h p w of
        Inr w' \<Rightarrow> unlink_each h ps (emit False (Removed p) w', n + 1)
      | Inl e \<Rightarrow> unlink_each h ps (emit False (RemoveFailed p e) w, n))"

text \<open>
  \<open>glob.glob(dir / "*.sock")\<close>: the entries directly under the data directory whose
  name ends in \<open>.sock\<close>; \<open>*\<close> does not match a name that starts with a dot.
\<close>

definition glob_sock :: "world \<Rightarrow> path list" where
  "glob_sock w =
     remdups [q. (q, n) \<leftarrow> files w,
                 case q of [name] \<Rightarrow> name \<noteq> [] \<and> hd name \<noteq> CHR ''.'' \<and> endswith name ''.sock''
                         | _ \<Rightarrow> False]"

text \<open>\<open>Path.iterdir\<close>: the entries directly under a directory.\<close>

definition iterdir :: "world \<Rightarrow> path \<Rightarrow> path list" where
  "iterdir w d = remdups [q. (q, n) \<leftarrow> files w, length q = Suc (length d) \<and> prefix d q]"

section \<open>The advanced identity cleanup\<close>

definition critical_files :: "string list" where
  "critical_files = [''.info'', ''.lock'', ''mcp.json'']"

definition system_files :: "string list" where
  "system_files = [''code.lock'', ''languagepacks.json'']"

definition cached_dirs :: "string list" where
  "cached_dirs = [''CachedData'', ''CachedProfilesData'']"

definition perform_advanced_identity_cleanup :: "host \<Rightarrow> world \<Rightarrow> world" where
  "perform_advanced_identity_cleanup h w =
     (let shared_cache = [''SharedClientCache''];
          s1 = (if path_exists w shared_cache then
                  (let a = remove_each ByUnlink False h (map (\<lambda>f. shared_cache @ [f]) critical_files) (w, 0);
                       b = remove_each ByRmtree False h [shared_cache @ [''index'']] a
                   in remove_each ByRmtree False h [shared_cache @ [''cache'']] b)
                else (w, 0));
          s2 = remove_each ByUnlink False h (map (\<lambda>f. [f]) system_files) s1;
          s3 = remove_each ByRmtree False h [[''Crashpad'']] s2;
          s4 = remove_each ByRmtree False h (map (\<lambda>d. [d]) cached_dirs) s3;
          s5 = unlink_each h (glob_sock (fst s4)) s4
      in emit False (AdvancedCleaned (snd s5)) (fst s5))"

section \<open>The chat history purge\<close>

definition chat_key :: "string \<Rightarrow> bool" where
  "chat_key key =
     (contains ''chat'' (lower key) \<or> contains ''conversation'' (lower key) \<or>
      contains ''history'' (lower key) \<or> contains ''session'' (lower key))"

fun clear_workspaces :: "host \<Rightarrow> path list \<Rightarrow> world \<times> nat \<Rightarrow> world \<times> nat" where
  "clear_workspaces h [] (w, n) = (w, n)"
| "clear_workspaces h (workspace_dir # rest) (w, n) =
     (if is_dir w workspace_dir then
        (let a = remove_each ByRmtree False h [workspace_dir @ [''chatSessions'']] (w, n);
             b = remove_each ByRmtree False h [workspace_dir @ [''chatEditingSessions'']] a
         in clear_workspaces h rest b)
      else clear_workspaces h rest (w, n))"

fun del_keys :: "json \<Rightarrow> string list \<Rightarrow> world \<Rightarrow> (exn + json) \<times> world" where
  "del_keys data [] w = (Inr data, w)"
| "del_keys data (k # ks) w =
     (case del_item data k of
        Inl e \<Rightarrow> (Inl e, w)
      | Inr data' \<Rightarrow> del_keys data' ks (emit False (ConfigKeyRemoved k) w))"

definition clear_chat_config :: "host \<Rightarrow> world \<times> nat \<Rightarrow> world \<times> nat" where
  "clear_chat_config h s =
     (case s of (w, n) \<Rightarrow>
        if path_exists w storage_json_file then
          (case load_json storage_json_file w of
             Inl e \<Rightarrow> (emit False (ConfigFailed e) w, n)
           | Inr data \<Rightarrow>
               (case keys_of data of
                  Inl e \<Rightarrow> (emit False (ConfigFailed e) w, n)
                | Inr keys \<Rightarrow>
                    (let chat_keys = filter chat_key keys
                     in if chat_keys \<noteq> [] then
                          (case del_keys data chat_keys w of
                             (Inl e, w1) \<Rightarrow> (emit False (ConfigFailed e) w1, n)
                           | (Inr data', w1) \<Rightarrow>
                               (case write_file h storage_json_file (Json data') w1 of
                                  Inl e \<Rightarrow> (emit False (ConfigFailed e) w1, n)
                                | Inr w2 \<Rightarrow> (w2, n + 1)))
                        else (w, n))))
        else (w, n))"

definition clear_chat_history :: "host \<Rightarrow> world \<Rightarrow> world" where
  "clear_chat_history h w0 =
     (let workspace_storage = [''User'', ''workspaceStorage'']
      in case (if path_exists w0 workspace_storage then
                 (if is_dir w0 workspace_storage
                  then Inr (clear_workspaces h (iterdir w0 workspace_storage) (w0, 0))
                  else Inl NotADirectoryError)
               else Inr (w0, 0)) of
           Inl e \<Rightarrow> emit False (ChatFailed e) w0
         | Inr s1 \<Rightarrow>
             (let s2 = remove_each ByRmtree False h [[''User'', ''History'']] s1;
                  s3 = remove_each ByRmtree False h [[''Session Storage'']] s2;
                  s4 = clear_chat_config h s3
              in emit False (ChatCleared (snd s4)) (fst s4)))"

section \<open>The identifier rewrites\<close>

text \<open>
  The program has each rewrite twice, word for word: in the button handler and in
  \<open>perform_full_reset\<close>.  The model has it once.
\<close>

definition rewrite_machine_id :: "host \<Rightarrow> world \<Rightarrow> exn + world" where
  "rewrite_machine_id h w =
     (case fresh_uuid h w of
        (new_machine_id, w1) \<Rightarrow> write_file h machine_id_file (Text new_machine_id) w1)"

text \<open>
  The three lines that generate the telemetry identifiers: the SHA-256 hex digest of one
  fresh UUID's text, and the text of a second fresh UUID.
\<close>

definition new_telemetry_ids :: "host \<Rightarrow> world \<Rightarrow> (string \<times> string) \<times> world" where
  "new_telemetry_ids h w =
     (case fresh_uuid h w of
        (new_uuid, w1) \<Rightarrow>
          (let machine_id_hash = hexdigest (sha256 h (encode new_uuid))
           in case fresh_uuid h w1 of
                (device_id, w2) \<Rightarrow> ((machine_id_hash, device_id), w2)))"

definition rewrite_telemetry :: "host \<Rightarrow> world \<Rightarrow> exn + world" where
  "rewrite_telemetry h w =
     (case load_json storage_json_file w of
        Inl e \<Rightarrow> Inl e
      | Inr data \<Rightarrow>
          (case new_telemetry_ids h w of
             ((machine_id_hash, device_id), w2) \<Rightarrow>
               (case set_item data ''telemetry.machineId'' (JStr machine_id_hash) of
                  Inl e \<Rightarrow> Inl e
                | Inr data1 \<Rightarrow>
                    (case set_item data1 ''telemetry.devDeviceId'' (JStr device_id) of
                       Inl e \<Rightarrow> Inl e
                     | Inr data2 \<Rightarrow>
                         write_file h storage_json_file (Json data2) w2))))"

section \<open>The full reset\<close>

definition cache_dirs :: "string list" where
  "cache_dirs = [''Cache'', ''blob_storage'', ''Code Cache'', ''SharedClientCache'',
                 ''GPUCache'', ''DawnGraphiteCache'', ''DawnWebGPUCache'']"

definition identity_files :: "string list" where
  "identity_files = [''Network Persistent State'', ''Cookies'', ''Cookies-journal'',
                     ''SharedStorage'', ''SharedStorage-wal'', ''Trust Tokens'',
                     ''Trust Tokens-journal'', ''TransportSecurity'', ''Preferences'',
                     ''Local State'', ''NetworkDataMigrated'']"

definition network_files :: "string list" where
  "network_files = [''Cookies'', ''Cookies-journal'', ''Network Persistent State'',
                    ''NetworkDataMigrated'', ''TransportSecurity'', ''Trust Tokens'',
                    ''Trust Tokens-journal'']"

definition storage_dirs :: "string list" where
  "storage_dirs = [''Local Storage'', ''Session Storage'', ''WebStorage'', ''Shared Dictionary'',
                   ''Service Worker'', ''clp'', ''logs'', ''Backups'', ''CachedExtensionVSIXs'']"

definition clean_cache_dirs :: "host \<Rightarrow> world \<Rightarrow> world" where
  "clean_cache_dirs h w =
     (case remove_each ByRmtree True h (map (\<lambda>d. [d]) cache_dirs) (w, 0) of
        (w', cleaned) \<Rightarrow> emit False (CacheCleaned cleaned) w')"

definition clean_identity_files :: "host \<Rightarrow> world \<Rightarrow> world \<times> nat" where
  "clean_identity_files h w =
     (let s = remove_each ByUnlink False h (map (\<lambda>f. [f]) identity_files) (w, 0)
      in if path_exists (fst s) [''Network'']
         then remove_each ByUnlink False h (map (\<lambda>f. [''Network'', f]) network_files) s
         else s)"

definition clean_storage_dirs :: "host \<Rightarrow> world \<times> nat \<Rightarrow> world" where
  "clean_storage_dirs h s =
     (case remove_each ByRmtree False h (map (\<lambda>d. [d]) storage_dirs) s of
        (w', identity_cleaned) \<Rightarrow> emit False (IdentityCleaned identity_cleaned) w')"

definition perform_full_reset :: "host \<Rightarrow> bool \<Rightarrow> world \<Rightarrow> exn + world" where
  "perform_full_reset h preserve_chat w0 =
     (if \<not> path_exists w0 [] then Inl (Exception ''Qoder application data directory not found'')
      else
        (case (if path_exists w0 machine_id_file then rewrite_machine_id h w0 else Inr w0) of
           Inl e \<Rightarrow> Inl e
         | Inr w1 \<Rightarrow>
             (case (if path_exists w1 storage_json_file then rewrite_telemetry h w1 else Inr w1) of
                Inl e \<Rightarrow> Inl e
              | Inr w2 \<Rightarrow>
                  (let w3 = clean_cache_dirs h w2;
                       s4 = clean_identity_files h w3;
                       w5 = clean_storage_dirs h s4;
                       w6 = perform_advanced_identity_cleanup h w5
                   in Inr (if preserve_chat then w6 else clear_chat_history h w6)))))"

section \<open>The button handlers\<close>

text \<open>
  What a handler ends with: the success dialog, the warning dialog, the error dialog
  that asks to close the application, the error dialog that shows a caught exception,
  a silent return after the operator answered no, or an exception that leaves the
  handler uncaught.
\<close>

datatype outcome = Done | Warned | StillRunning | Failed exn | Cancelled | Crashed exn

definition check_qoder_running :: "host \<Rightarrow> world \<Rightarrow> (exn + bool \<times> string list) \<times> world" where
  "check_qoder_running h w =
     (check_process_running (probes h (probes_used w)) ''Qoder'',
      w\<lparr>probes_used := Suc (probes_used w)\<rparr>)"

definition question :: "host \<Rightarrow> world \<Rightarrow> bool \<times> world" where
  "question h w = (replies h (replies_used w), w\<lparr>replies_used := Suc (replies_used w)\<rparr>)"

definition reset_machine_id :: "host \<Rightarrow> world \<Rightarrow> outcome \<times> world" where
  "reset_machine_id h w0 =
     (case check_qoder_running h w0 of
        (Inl e, w) \<Rightarrow> (Crashed e, w)
      | (Inr (is_running, pids), w) \<Rightarrow>
          if is_running then (StillRunning, w)
          else if \<not> path_exists w [] then
            (Failed (Exception ''Qoder application data directory not found''), w)
          else if path_exists w machine_id_file then
            (case rewrite_machine_id h w of
               Inl e \<Rightarrow> (Failed e, w)
             | Inr w' \<Rightarrow> (Done, w'))
          else (Warned, w))"

definition reset_telemetry :: "host \<Rightarrow> world \<Rightarrow> outcome \<times> world" where
  "reset_telemetry h w0 =
     (case check_qoder_running h w0 of
        (Inl e, w) \<Rightarrow> (Crashed e, w)
      | (Inr (is_running, pids), w) \<Rightarrow>
          if is_running then (StillRunning, w)
          else if \<not> path_exists w storage_json_file then
            (Failed (Exception ''telemetry data file not found''), w)
          else
            (case rewrite_telemetry h w of
               Inl e \<Rightarrow> (Failed e, w)
             | Inr w' \<Rightarrow> (Done, w')))"

text \<open>The part of \<open>deep_identity_cleanup\<close> after the process check.\<close>

definition deep_identity_cleanup_confirmed :: "host \<Rightarrow> world \<Rightarrow> outcome \<times> world" where
  "deep_identity_cleanup_confirmed h w =
     (case question h w of
        (reply, w1) \<Rightarrow>
          if \<not> reply then (Cancelled, w1)
          else if \<not> path_exists w1 [] then
            (Failed (Exception ''Qoder application data directory not found''), w1)
          else (Done, perform_advanced_identity_cleanup h w1))"

definition deep_identity_cleanup :: "host \<Rightarrow> world \<Rightarrow> outcome \<times> world" where
  "deep_identity_cleanup h w0 =
     (case check_qoder_running h w0 of
        (Inl e, w) \<Rightarrow> (Crashed e, w)
      | (Inr (is_running, pids), w) \<Rightarrow>
          if is_running then
            (case question h w of
               (reply, w1) \<Rightarrow>
                 if \<not> reply then (Cancelled, w1)
                 else
                   (case check_qoder_running h w1 of
                      (Inl e, w2) \<Rightarrow> (Crashed e, w2)
                    | (Inr (is_running2, pids2), w2) \<Rightarrow>
                        if is_running2 then (StillRunning, w2)
                        else deep_identity_cleanup_confirmed h w2))
          else deep_identity_cleanup_confirmed h w)"

text \<open>The part of \<open>one_click_reset\<close> after the process check.\<close>

definition one_click_reset_confirmed :: "host \<Rightarrow> world \<Rightarrow> outcome \<times> world" where
  "one_click_reset_confirmed h w =
     (case question h w of
        (reply, w1) \<Rightarrow>
          if \<not> reply then (Cancelled, w1)
          else
            (case perform_full_reset h (preserve_chat_checked h) w1 of
               Inl e \<Rightarrow> (Failed e, w1)
             | Inr w2 \<Rightarrow> (Done, w2)))"

definition one_click_reset :: "host \<Rightarrow> world \<Rightarrow> outcome \<times> world" where
  "one_click_reset h w0 =
     (case check_qoder_running h w0 of
        (Inl e, w) \<Rightarrow> (Crashed e, w)
      | (Inr (is_running, pids), w) \<Rightarrow>
          if is_running then
            (case question h w of
               (reply, w1) \<Rightarrow>
                 if \<not> reply then (Cancelled, w1)
                 else
                   (case check_qoder_running h w1 of
                      (Inl e, w2) \<Rightarrow> (Crashed e, w2)
                    | (Inr (is_running2, pids2), w2) \<Rightarrow>
                        if is_running2 then (StillRunning, w2)
                        else one_click_reset_confirmed h w2))
          else one_click_reset_confirmed h w)"

datatype operation = ResetMachineId | ResetTelemetry | DeepIdentityCleanup | FullReset

fun run_operation :: "operation \<Rightarrow> host \<Rightarrow> world \<Rightarrow> outcome \<times> world" where
  "run_operation ResetMachineId h w = reset_machine_id h w"
| "run_operation ResetTelemetry h w = reset_telemetry h w"
| "run_operation DeepIdentityCleanup h w = deep_identity_cleanup h w"
| "run_operation FullReset h w = one_click_reset h w"

section \<open>Example hosts and data directories\<close>

text \<open>
  Concrete inputs for the examples below: a probe that finds no process and one that
  finds one, a host that answers yes to every prompt and refuses nothing, and the data
  directory of the specification's end-to-end example.
\<close>

definition quiet_probe :: probe_env where
  "quiet_probe = \<lparr>system = Linux, native = Inr \<lparr>returncode = 1, stdout = ''''\<rparr>, psutil = Inl ImportError\<rparr>"

definition busy_probe :: probe_env where
  "busy_probe = \<lparr>system = Linux, native = Inr \<lparr>returncode = 0, stdout = ''4242''\<rparr>, psutil = Inl ImportError\<rparr>"

definition example_host :: host where
  "example_host = \<lparr>probes = (\<lambda>i. quiet_probe), replies = (\<lambda>i. True), urandom = (\<lambda>i. of_nat i),
         sha256 = (\<lambda>m. 0), rm_denied = (\<lambda>p. False), wr_denied = (\<lambda>p. False),
         preserve_chat_checked = True\<rparr>"

definition example_files :: fs where
  "example_files =
     [([], Dir),
      ([''machineid''], File (Text ''abc'')),
      ([''User''], Dir),
      ([''User'', ''globalStorage''], Dir),
      ([''User'', ''globalStorage'', ''storage.json''],
         File (Json (JObj [(''telemetry.machineId'', JStr ''x''),
                           (''telemetry.devDeviceId'', JStr ''y''),
                           (''other'', JNum 1)]))),
      ([''Cache''], Dir)]"

definition world_of :: "fs \<Rightarrow> world" where
  "world_of f = \<lparr>files = f, trace = [], journal = [], probes_used = 0, replies_used = 0, rands_used = 0\<rparr>"

definition same_id_files :: fs where
  "same_id_files =
     [([], Dir), ([''machineid''], File (Text ''00000000-0000-4000-8000-000000000000''))]"


text \<open>
  A host where the application runs at the first probe and is closed by the second, and
  one where it keeps running.
\<close>

definition closing_host :: host where
  "closing_host = example_host\<lparr>probes := (\<lambda>i. if i = 0 then busy_probe else quiet_probe)\<rparr>"

definition busy_host :: host where
  "busy_host = example_host\<lparr>probes := (\<lambda>i. busy_probe)\<rparr>"

text \<open>The names of a profile that exist directly under the data directory.\<close>

definition swept :: "world \<Rightarrow> string list \<Rightarrow> string list" where
  "swept w names = filter (\<lambda>d. path_exists w [d]) names"

text \<open>
  Predicates on the trace and the files, used to state what a step may do: the action
  a remover records, a world whose trace extends another's by actions of one kind, and a
  world whose files are a part of another's, each unchanged.
\<close>

definition removal :: "remover \<Rightarrow> path \<Rightarrow> action" where
  "removal k p = (case k of ByRmtree \<Rightarrow> Rmtree p | ByUnlink \<Rightarrow> Unlink p)"

definition extends :: "(action \<Rightarrow> bool) \<Rightarrow> world \<Rightarrow> world \<Rightarrow> bool" where
  "extends P w w' = (\<exists>t. trace w' = trace w @ t \<and> list_all P t)"

definition shrinks :: "world \<Rightarrow> world \<Rightarrow> bool" where
  "shrinks w w' = (\<forall>q. map_of (files w') q = None \<or> map_of (files w') q = map_of (files w) q)"


fun json_write :: "path \<Rightarrow> action \<Rightarrow> bool" where
  "json_write p (Write q (Json v)) = (q = p)"
| "json_write p _ = False"


fun workspace_chat_rmtree :: "action \<Rightarrow> bool" where
  "workspace_chat_rmtree (Rmtree [u, s, x, c]) =
     (u = ''User'' \<and> s = ''workspaceStorage'' \<and> (c = ''chatSessions'' \<or> c = ''chatEditingSessions''))"
| "workspace_chat_rmtree _ = False"







definition chat_action :: "action \<Rightarrow> bool" where
  "chat_action a =
     (a \<in> set [Rmtree [''User'', ''History''], Rmtree [''Session Storage'']]
      \<or> workspace_chat_rmtree a
      \<or> json_write storage_json_file a)"

fun is_removal :: "action \<Rightarrow> bool" where
  "is_removal (Write p c) = False"
| "is_removal (Rmtree p) = True"
| "is_removal (Unlink p) = True"

text \<open>
  A \<open>storage.json\<close> with chat-related and unrelated keys, in a data directory that has
  no workspace storage.
\<close>

definition chat_object :: "(string \<times> json) list" where
  "chat_object =
     [(''chat.panelState'', JNum 1),
      (''telemetry.machineId'', JStr ''x''),
      (''workbench.SessionCount'', JNum 7),
      (''other'', JBool True),
      (''searchHISTORY'', JArr []),
      (''aiConversationIds'', JNull)]"

definition chat_files :: fs where
  "chat_files =
     [([], Dir),
      ([''User''], Dir),
      ([''User'', ''globalStorage''], Dir),
      ([''User'', ''globalStorage'', ''storage.json''], File (Json (JObj chat_object)))]"



section \<open>Properties of the identifiers\<close>

lemma hex_digit_is_hex: "n < 16 \<Longrightarrow> is_hex (hex_digit n)"
proof -
  assume "n < 16"
  then have "n \<in> set [0..<16]" by simp
  then have "n \<in> {0,1,2,3,4,5,6,7,8,9,10,11,12,13,14,15}"
    by (simp add: upt_rec numeral_eq_Suc)
  then show ?thesis
    by (auto simp: hex_digit_def is_hex_def)
qed

lemma nibble_bound: "unat ((w :: 'a::len word) AND 0xF) < 16"
proof -
  have "unat (w AND 0xF) \<le> unat (0xF :: 'a word)"
    by (rule word_and_le1 [THEN word_le_nat_alt [THEN iffD1]])
  also have "unat (0xF :: 'a word) \<le> 15"
    by (simp add: unsigned_numeral take_bit_nat_less_eq_self)
  finally show ?thesis by simp
qed

lemma length_hex_fixed [simp]: "length (hex_fixed k w) = k"
  by (simp add: hex_fixed_def)

lemma hex_fixed_all_hex: "list_all is_hex (hex_fixed k w)"
  by (simp add: hex_fixed_def list_all_iff hex_digit_is_hex nibble_bound)

lemma list_all_take: "list_all P xs \<Longrightarrow> list_all P (take n xs)"
  by (auto simp: list_all_iff dest: in_set_takeD)

lemma list_all_drop: "list_all P xs \<Longrightarrow> list_all P (drop n xs)"
  by (auto simp: list_all_iff dest: in_set_dropD)

lemma str_uuid_unfold:
  "str_uuid u = take 8 (hex_fixed 32 u) @ ''-'' @ take 4 (drop 8 (hex_fixed 32 u)) @ ''-'' @
     take 4 (drop 12 (hex_fixed 32 u)) @ ''-'' @ take 4 (drop 16 (hex_fixed 32 u)) @ ''-'' @
     drop 20 (hex_fixed 32 u)"
  by (simp add: str_uuid_def Let_def)

lemma valid_str_uuid: "valid_uuid (str_uuid u)"
proof -
  define hx where "hx = hex_fixed 32 u"
  have len: "length hx = 32" by (simp add: hx_def)
  have all: "list_all is_hex hx" by (simp add: hx_def hex_fixed_all_hex)
  show ?thesis
    unfolding valid_uuid_def str_uuid_unfold hx_def [symmetric] using len all
    by (simp add: nth_append list_all_take list_all_drop)
qed

lemma nib_alg: "((y AND c) OR d) AND m = (y AND (c AND m)) OR (d AND m)" for y :: "'a::len word"
  by (simp add: bit.conj_disj_distrib2 and.assoc)

lemma version_mask_clear: "drop_bit 76 (NOT (push_bit 64 (0xf000 :: 128 word))) AND 0xF = 0"
  by simp

lemma version_bits_set: "drop_bit 76 (push_bit 76 (4 :: 128 word)) AND 0xF = 4"
  by simp

lemma version_nibble: "drop_bit 76 (uuid4 r) AND 0xF = 4"
proof -
  have "drop_bit 76 (uuid4 r) AND 0xF =
        ((drop_bit 76 ((r AND NOT (push_bit 48 0xc000)) OR push_bit 48 0x8000) AND
           drop_bit 76 (NOT (push_bit 64 (0xf000 :: 128 word)))) OR
          drop_bit 76 (push_bit 76 (4 :: 128 word))) AND 0xF"
    by (simp only: uuid4_def Let_def drop_bit_and drop_bit_or)
  also have "\<dots> = (drop_bit 76 ((r AND NOT (push_bit 48 0xc000)) OR push_bit 48 0x8000) AND
           (drop_bit 76 (NOT (push_bit 64 (0xf000 :: 128 word))) AND 0xF)) OR
          (drop_bit 76 (push_bit 76 (4 :: 128 word)) AND 0xF)"
    by (rule nib_alg)
  also have "\<dots> = 4"
    by (simp only: version_mask_clear version_bits_set) simp
  finally show ?thesis .
qed

lemma version_digit: "str_uuid (uuid4 r) ! 14 = CHR ''4''"
proof -
  have "str_uuid (uuid4 r) ! 14 = hex_fixed 32 (uuid4 r) ! 12"
    unfolding str_uuid_unfold by (simp add: nth_append)
  also have "\<dots> = hex_digit (unat (drop_bit 76 (uuid4 r) AND 0xF))"
    by (simp add: hex_fixed_def)
  also have "\<dots> = CHR ''4''"
    by (simp only: version_nibble) (simp add: hex_digit_def)
  finally show ?thesis .
qed

lemma uuid4_is_version4: "is_version4 (str_uuid (uuid4 r))"
  by (simp add: is_version4_def valid_str_uuid version_digit)


lemma fresh_uuid_eq:
  "fresh_uuid h w = (str_uuid (uuid4 (urandom h (rands_used w))), w\<lparr>rands_used := Suc (rands_used w)\<rparr>)"
  by (simp add: fresh_uuid_def)


section \<open>Properties of the process probe\<close>

text \<open>
  Claim C5.  The probe is meant never to raise.  When \<open>pgrep\<close> is missing and psutil
  lists a process whose name it could not read, the fallback raises \<open>AttributeError\<close>,
  which neither of its handlers catches, and the probe propagates it.
\<close>

theorem check_process_running_propagates:
  "check_process_running
     \<lparr>system = Linux, native = Inl FileNotFoundError, psutil = Inr [Inr (4242, None)]\<rparr> ''Qoder''
   = Inl AttributeError"
  by (simp add: check_process_running_def native_probe_def fallback_probe_def)

section \<open>Properties of the machine-ID reset\<close>

lemma quiet_probe_result [simp]: "check_process_running quiet_probe n = Inr (False, [])"
  by (simp add: check_process_running_def native_probe_def quiet_probe_def)

lemma busy_probe_result [simp]: "check_process_running busy_probe n = Inr (True, [''4242''])"
  by (simp add: check_process_running_def native_probe_def busy_probe_def strip_def is_space_def)

lemma write_file_Inr:
  "write_file h p c w = Inr w' \<longleftrightarrow>
     map_of (files w) p \<noteq> Some Dir \<and> \<not> wr_denied h p \<and>
     w' = w\<lparr>files := AList.update p (File c) (files w), trace := trace w @ [Write p c]\<rparr>"
  by (auto simp: write_file_def)

lemma write_file_Inl:
  "write_file h p c w = Inl e \<Longrightarrow> map_of (files w) p = Some Dir \<or> wr_denied h p"
  by (auto simp: write_file_def split: if_splits)

lemma rewrite_machine_id_Inr:
  "rewrite_machine_id h w = Inr w' \<longleftrightarrow>
     map_of (files w) machine_id_file \<noteq> Some Dir \<and> \<not> wr_denied h machine_id_file \<and>
     w' = w\<lparr>rands_used := Suc (rands_used w),
            files := AList.update machine_id_file (File (Text (str_uuid (uuid4 (urandom h (rands_used w)))))) (files w),
            trace := trace w @ [Write machine_id_file (Text (str_uuid (uuid4 (urandom h (rands_used w)))))]\<rparr>"
  by (auto simp: rewrite_machine_id_def fresh_uuid_eq write_file_Inr)

lemma reset_machine_id_no_write:
  "fst (reset_machine_id h w) \<noteq> Done \<Longrightarrow>
     files (snd (reset_machine_id h w)) = files w \<and> trace (snd (reset_machine_id h w)) = trace w"
  by (auto simp: reset_machine_id_def check_qoder_running_def path_exists_def
           split: sum.splits prod.splits if_splits)

lemma reset_machine_id_missing:
  "\<not> path_exists w [] \<or> \<not> path_exists w machine_id_file \<Longrightarrow> fst (reset_machine_id h w) \<noteq> Done"
  by (auto simp: reset_machine_id_def check_qoder_running_def path_exists_def
           split: sum.splits prod.splits if_splits)

text \<open>
  Claim C6.  The machine-ID reset does not succeed and writes nothing when the data
  directory or the machine-ID file is missing: with the application not running, a
  missing directory ends in the error dialog and a missing file in the warning dialog.
  When both exist, the file is overwritten with the text of a fresh UUID: the content
  is plain text, not a JSON value.
\<close>

theorem reset_machine_id_spec:
  "(\<not> path_exists w [] \<or> \<not> path_exists w machine_id_file \<longrightarrow>
      fst (reset_machine_id h w) \<noteq> Done \<and>
      files (snd (reset_machine_id h w)) = files w \<and>
      trace (snd (reset_machine_id h w)) = trace w)
   \<and> (check_process_running (probes h (probes_used w)) ''Qoder'' = Inr (False, pids) \<longrightarrow>
        (\<not> path_exists w [] \<longrightarrow>
           fst (reset_machine_id h w) =
             Failed (Exception ''Qoder application data directory not found''))
      \<and> (path_exists w [] \<and> \<not> path_exists w machine_id_file \<longrightarrow>
           fst (reset_machine_id h w) = Warned)
      \<and> (path_exists w [] \<and> map_of (files w) machine_id_file = Some (File c) \<and>
           \<not> wr_denied h machine_id_file \<longrightarrow>
           fst (reset_machine_id h w) = Done \<and>
           files (snd (reset_machine_id h w)) =
             AList.update machine_id_file
               (File (Text (str_uuid (uuid4 (urandom h (rands_used w)))))) (files w) \<and>
           trace (snd (reset_machine_id h w)) =
             trace w @ [Write machine_id_file (Text (str_uuid (uuid4 (urandom h (rands_used w)))))] \<and>
           valid_uuid (str_uuid (uuid4 (urandom h (rands_used w))))))"
proof -
  have a: "\<not> path_exists w [] \<or> \<not> path_exists w machine_id_file \<longrightarrow>
      fst (reset_machine_id h w) \<noteq> Done \<and>
      files (snd (reset_machine_id h w)) = files w \<and>
      trace (snd (reset_machine_id h w)) = trace w"
    using reset_machine_id_missing reset_machine_id_no_write by blast
  have b: "check_process_running (probes h (probes_used w)) ''Qoder'' = Inr (False, pids) \<Longrightarrow>
      \<not> path_exists w [] \<Longrightarrow>
      fst (reset_machine_id h w) = Failed (Exception ''Qoder application data directory not found'')"
    by (simp add: reset_machine_id_def check_qoder_running_def path_exists_def)
  have c: "check_process_running (probes h (probes_used w)) ''Qoder'' = Inr (False, pids) \<Longrightarrow>
      path_exists w [] \<and> \<not> path_exists w machine_id_file \<Longrightarrow>
      fst (reset_machine_id h w) = Warned"
    by (simp add: reset_machine_id_def check_qoder_running_def path_exists_def)
  have d: "check_process_running (probes h (probes_used w)) ''Qoder'' = Inr (False, pids) \<Longrightarrow>
      path_exists w [] \<and> map_of (files w) machine_id_file = Some (File c) \<and>
           \<not> wr_denied h machine_id_file \<Longrightarrow>
      fst (reset_machine_id h w) = Done \<and>
           files (snd (reset_machine_id h w)) =
             AList.update machine_id_file
               (File (Text (str_uuid (uuid4 (urandom h (rands_used w)))))) (files w) \<and>
           trace (snd (reset_machine_id h w)) =
             trace w @ [Write machine_id_file (Text (str_uuid (uuid4 (urandom h (rands_used w)))))]"
    by (simp add: reset_machine_id_def check_qoder_running_def path_exists_def
          rewrite_machine_id_def fresh_uuid_eq write_file_def)
  show ?thesis using a b c d valid_str_uuid by blast
qed


theorem reset_machine_id_spec_witness:
  "fst (reset_machine_id example_host (world_of [])) =
     Failed (Exception ''Qoder application data directory not found'')
   \<and> files (snd (reset_machine_id example_host (world_of []))) = []
   \<and> fst (reset_machine_id example_host (world_of [([], Dir)])) = Warned
   \<and> files (snd (reset_machine_id example_host (world_of [([], Dir)]))) = [([], Dir)]
   \<and> fst (reset_machine_id example_host (world_of example_files)) = Done
   \<and> trace (snd (reset_machine_id example_host (world_of example_files))) =
       [Write machine_id_file (Text (str_uuid (uuid4 0)))]"
  using reset_machine_id_spec [where h = example_host and w = "world_of []" and pids = "[]"]
        reset_machine_id_spec [where h = example_host and w = "world_of [([], Dir)]" and pids = "[]"]
        reset_machine_id_spec [where h = example_host and w = "world_of example_files" and pids = "[]"
                                 and c = "Text ''abc''"]
  by (simp add: example_host_def world_of_def example_files_def path_exists_def machine_id_file_def)

lemma str_uuid_zero: "str_uuid (uuid4 0) = ''00000000-0000-4000-8000-000000000000''"
  by code_simp

text \<open>
  Claim C7, as stated, fails: the new content is determined by the random draw alone,
  so it equals the prior content when the file already held that UUID.
\<close>

theorem reset_machine_id_same_content:
  "fst (reset_machine_id example_host (world_of same_id_files)) = Done
   \<and> map_of (files (snd (reset_machine_id example_host (world_of same_id_files)))) machine_id_file
       = map_of (files (world_of same_id_files)) machine_id_file"
  by (simp add: reset_machine_id_def check_qoder_running_def example_host_def world_of_def
        same_id_files_def path_exists_def machine_id_file_def rewrite_machine_id_def
        fresh_uuid_eq write_file_def str_uuid_zero)

lemma reset_machine_id_Done:
  "reset_machine_id h w = (Done, w') \<Longrightarrow>
     files w' = AList.update machine_id_file
                  (File (Text (str_uuid (uuid4 (urandom h (rands_used w)))))) (files w)"
  by (auto simp: reset_machine_id_def check_qoder_running_def rewrite_machine_id_Inr
           split: sum.splits prod.splits if_splits)

text \<open>
  Claim C7, amended.  After a successful machine-ID reset the file holds the canonical
  text of the freshly drawn version-4 UUID, whatever it held before; the new content
  differs from the prior content whenever the prior content is not that same text, in
  particular whenever the prior content is not a syntactically valid UUID.
\<close>

theorem reset_machine_id_new_content:
  assumes "reset_machine_id h w = (Done, w')"
  shows "map_of (files w') machine_id_file =
           Some (File (Text (str_uuid (uuid4 (urandom h (rands_used w))))))
       \<and> is_version4 (str_uuid (uuid4 (urandom h (rands_used w))))
       \<and> (map_of (files w) machine_id_file \<noteq>
             Some (File (Text (str_uuid (uuid4 (urandom h (rands_used w)))))) \<longrightarrow>
           map_of (files w') machine_id_file \<noteq> map_of (files w) machine_id_file)
       \<and> (\<forall>prior. map_of (files w) machine_id_file = Some (File (Text prior)) \<and> \<not> valid_uuid prior \<longrightarrow>
           map_of (files w') machine_id_file \<noteq> map_of (files w) machine_id_file)"
proof -
  let ?u = "str_uuid (uuid4 (urandom h (rands_used w)))"
  have new: "map_of (files w') machine_id_file = Some (File (Text ?u))"
    using reset_machine_id_Done [OF assms] by (simp add: update_conv')
  have v: "valid_uuid ?u" by (rule valid_str_uuid)
  show ?thesis using new v uuid4_is_version4 by auto
qed

theorem reset_machine_id_new_content_witness:
  "reset_machine_id example_host (world_of example_files) =
     (Done, snd (reset_machine_id example_host (world_of example_files)))
   \<and> map_of (files (world_of example_files)) machine_id_file = Some (File (Text ''abc''))
   \<and> \<not> valid_uuid ''abc''
   \<and> map_of (files (snd (reset_machine_id example_host (world_of example_files)))) machine_id_file
       = Some (File (Text ''00000000-0000-4000-8000-000000000000''))
   \<and> map_of (files (snd (reset_machine_id example_host (world_of example_files)))) machine_id_file
       \<noteq> map_of (files (world_of example_files)) machine_id_file"
proof -
  have run: "reset_machine_id example_host (world_of example_files) =
     (Done, snd (reset_machine_id example_host (world_of example_files)))"
    by (simp add: reset_machine_id_def check_qoder_running_def example_host_def world_of_def
        example_files_def path_exists_def machine_id_file_def rewrite_machine_id_def
        fresh_uuid_eq write_file_def)
  have prior: "map_of (files (world_of example_files)) machine_id_file = Some (File (Text ''abc''))"
    by (simp add: world_of_def example_files_def machine_id_file_def)
  have bad: "\<not> valid_uuid ''abc''" by (simp add: valid_uuid_def)
  have r: "urandom example_host (rands_used (world_of example_files)) = 0"
    by (simp add: example_host_def world_of_def)
  show ?thesis
    using reset_machine_id_new_content [OF run] run prior bad
    by (simp add: r str_uuid_zero)
qed

section \<open>Properties of the telemetry reset\<close>







section \<open>The running-process gate\<close>

lemma gate_reset_machine_id:
  assumes "check_process_running (probes h (probes_used w)) ''Qoder'' = Inr (True, pids)"
  shows "reset_machine_id h w = (StillRunning, w\<lparr>probes_used := Suc (probes_used w)\<rparr>)"
  using assms by (simp add: reset_machine_id_def check_qoder_running_def)

lemma gate_reset_telemetry:
  assumes "check_process_running (probes h (probes_used w)) ''Qoder'' = Inr (True, pids)"
  shows "reset_telemetry h w = (StillRunning, w\<lparr>probes_used := Suc (probes_used w)\<rparr>)"
  using assms by (simp add: reset_telemetry_def check_qoder_running_def)

lemma gate_deep_identity_cleanup:
  assumes "check_process_running (probes h (probes_used w)) ''Qoder'' = Inr (True, pids)"
  shows "deep_identity_cleanup h w =
     (if \<not> replies h (replies_used w)
      then (Cancelled, w\<lparr>probes_used := Suc (probes_used w), replies_used := Suc (replies_used w)\<rparr>)
      else (case check_process_running (probes h (Suc (probes_used w))) ''Qoder'' of
              Inl e \<Rightarrow> (Crashed e, w\<lparr>replies_used := Suc (replies_used w), probes_used := Suc (Suc (probes_used w))\<rparr>)
            | Inr (is_running2, pids2) \<Rightarrow>
                if is_running2
                then (StillRunning, w\<lparr>replies_used := Suc (replies_used w), probes_used := Suc (Suc (probes_used w))\<rparr>)
                else deep_identity_cleanup_confirmed h
                       (w\<lparr>replies_used := Suc (replies_used w), probes_used := Suc (Suc (probes_used w))\<rparr>)))"
  using assms
  by (simp add: deep_identity_cleanup_def check_qoder_running_def question_def
           split: sum.splits prod.splits)

lemma gate_one_click_reset:
  assumes "check_process_running (probes h (probes_used w)) ''Qoder'' = Inr (True, pids)"
  shows "one_click_reset h w =
     (if \<not> replies h (replies_used w)
      then (Cancelled, w\<lparr>probes_used := Suc (probes_used w), replies_used := Suc (replies_used w)\<rparr>)
      else (case check_process_running (probes h (Suc (probes_used w))) ''Qoder'' of
              Inl e \<Rightarrow> (Crashed e, w\<lparr>replies_used := Suc (replies_used w), probes_used := Suc (Suc (probes_used w))\<rparr>)
            | Inr (is_running2, pids2) \<Rightarrow>
                if is_running2
                then (StillRunning, w\<lparr>replies_used := Suc (replies_used w), probes_used := Suc (Suc (probes_used w))\<rparr>)
                else one_click_reset_confirmed h
                       (w\<lparr>replies_used := Suc (replies_used w), probes_used := Suc (Suc (probes_used w))\<rparr>)))"
  using assms
  by (simp add: one_click_reset_def check_qoder_running_def question_def
           split: sum.splits prod.splits)

text \<open>
  Claim C1.  Let the first probe of an operation report the application running.  Then
  the operation changes a file only if the operator answers yes to the prompt and the
  second probe reports it not running; if the second probe reports it running, the
  operation ends without any change to the files.  The machine-ID and telemetry resets
  have no prompt: they end with the error dialog and change nothing.
\<close>

theorem running_gate:
  assumes "check_process_running (probes h (probes_used w)) ''Qoder'' = Inr (True, pids)"
  shows "(files (snd (run_operation op h w)) \<noteq> files w \<or> trace (snd (run_operation op h w)) \<noteq> trace w \<longrightarrow>
            replies h (replies_used w) \<and>
            (\<exists>pids2. check_process_running (probes h (Suc (probes_used w))) ''Qoder'' = Inr (False, pids2)))
       \<and> ((\<exists>pids2. check_process_running (probes h (Suc (probes_used w))) ''Qoder'' = Inr (True, pids2)) \<longrightarrow>
            files (snd (run_operation op h w)) = files w \<and>
            trace (snd (run_operation op h w)) = trace w \<and>
            (fst (run_operation op h w) = StillRunning \<or> fst (run_operation op h w) = Cancelled))
       \<and> (op = ResetMachineId \<or> op = ResetTelemetry \<longrightarrow>
            files (snd (run_operation op h w)) = files w \<and>
            trace (snd (run_operation op h w)) = trace w \<and>
            fst (run_operation op h w) = StillRunning)"
proof (cases op)
  case ResetMachineId
  then show ?thesis by (simp add: gate_reset_machine_id [OF assms])
next
  case ResetTelemetry
  then show ?thesis by (simp add: gate_reset_telemetry [OF assms])
next
  case DeepIdentityCleanup
  then show ?thesis
    by (auto simp: gate_deep_identity_cleanup [OF assms] split: sum.splits if_splits)
next
  case FullReset
  then show ?thesis
    by (auto simp: gate_one_click_reset [OF assms] split: sum.splits if_splits)
qed


lemma closing_run:
  "trace (snd (run_operation FullReset closing_host (world_of example_files))) \<noteq> []"
  by code_simp

theorem running_gate_witness:
  "check_process_running (probes closing_host (probes_used (world_of example_files))) ''Qoder''
     = Inr (True, [''4242''])
   \<and> trace (snd (run_operation FullReset closing_host (world_of example_files)))
       \<noteq> trace (world_of example_files)
   \<and> replies closing_host (replies_used (world_of example_files))
   \<and> check_process_running (probes closing_host (Suc (probes_used (world_of example_files)))) ''Qoder''
       = Inr (False, [])
   \<and> check_process_running (probes busy_host (probes_used (world_of example_files))) ''Qoder''
       = Inr (True, [''4242''])
   \<and> check_process_running (probes busy_host (Suc (probes_used (world_of example_files)))) ''Qoder''
       = Inr (True, [''4242''])
   \<and> files (snd (run_operation FullReset busy_host (world_of example_files)))
       = files (world_of example_files)
   \<and> fst (run_operation ResetMachineId busy_host (world_of example_files)) = StillRunning"
proof -
  have a: "check_process_running (probes closing_host (probes_used (world_of example_files))) ''Qoder''
     = Inr (True, [''4242''])"
    by (simp add: closing_host_def world_of_def)
  have b: "check_process_running (probes busy_host (probes_used (world_of example_files))) ''Qoder''
     = Inr (True, [''4242''])"
    by (simp add: busy_host_def)
  have c: "check_process_running (probes busy_host (Suc (probes_used (world_of example_files)))) ''Qoder''
       = Inr (True, [''4242''])"
    by (simp add: busy_host_def)
  have d: "trace (snd (run_operation FullReset closing_host (world_of example_files)))
       \<noteq> trace (world_of example_files)"
    using closing_run by (simp add: world_of_def)
  have e: "replies closing_host (replies_used (world_of example_files))"
    by (simp add: closing_host_def example_host_def)
  have f: "check_process_running (probes closing_host (Suc (probes_used (world_of example_files)))) ''Qoder''
       = Inr (False, [])"
    by (simp add: closing_host_def)
  show ?thesis
    using running_gate [OF a, where op = FullReset] running_gate [OF b, where op = FullReset]
      running_gate [OF b, where op = ResetMachineId] a b c d e f
    by simp
qed

section \<open>Properties of the cleanup loops\<close>

lemma map_of_filter_key:
  "map_of (filter (\<lambda>(k, v). P k) xs) k = (if P k then map_of xs k else None)"
  by (induction xs) auto

lemma rmtree_dir:
  assumes "is_dir w p" and "\<forall>q. prefix p q \<longrightarrow> \<not> rm_denied h q"
  shows "rmtree h p w =
           Inr (w\<lparr>files := filter (\<lambda>(q, n). \<not> prefix p q) (files w), trace := trace w @ [Rmtree p]\<rparr>)"
proof -
  have "\<not> list_ex (\<lambda>(q, n). prefix p q \<and> rm_denied h q) (files w)"
    using assms(2) by (auto simp: list_ex_iff)
  then show ?thesis using assms(1) by (simp add: rmtree_def is_dir_def)
qed

lemma remove_each_rmtree_top:
  assumes "distinct names"
    and "\<forall>d\<in>set names. path_exists w [d] \<longrightarrow> is_dir w [d]"
    and "\<forall>d\<in>set names. \<forall>q. prefix [d] q \<longrightarrow> \<not> rm_denied h q"
  shows "remove_each ByRmtree quiet h (map (\<lambda>d. [d]) names) (w, c) =
           (w\<lparr>files := filter (\<lambda>(q, n). \<not> (\<exists>d\<in>set (swept w names). prefix [d] q)) (files w),
              trace := trace w @ map (\<lambda>d. Rmtree [d]) (swept w names),
              journal := journal w @ (if quiet then [] else map (\<lambda>d. Removed [d]) (swept w names))\<rparr>,
            c + length (swept w names))"
  using assms
proof (induction names arbitrary: w c)
  case Nil
  then show ?case by (simp add: swept_def)
next
  case (Cons a names)
  show ?case
  proof (cases "path_exists w [a]")
    case False
    have sw: "swept w (a # names) = swept w names"
      using False by (simp add: swept_def)
    show ?thesis
      using False Cons.prems Cons.IH [of w c] by (simp add: sw)
  next
    case True
    let ?w1 = "w\<lparr>files := filter (\<lambda>(q, n). \<not> prefix [a] q) (files w), trace := trace w @ [Rmtree [a]]\<rparr>"
    let ?w2 = "emit quiet (Removed [a]) ?w1"
    have dir: "is_dir w [a]" using True Cons.prems(2) by simp
    have ok: "\<forall>q. prefix [a] q \<longrightarrow> \<not> rm_denied h q" using Cons.prems(3) by simp
    have rm: "remove ByRmtree h [a] w = Inr ?w1"
      by (simp add: remove_def rmtree_dir [OF dir ok])
    have files2: "files ?w2 = filter (\<lambda>(q, n). \<not> prefix [a] q) (files w)"
      by (simp add: emit_def)
    have ex2: "\<And>d. d \<in> set names \<Longrightarrow> path_exists ?w2 [d] = path_exists w [d]"
    proof -
      fix d assume "d \<in> set names"
      then have "d \<noteq> a" using Cons.prems(1) by auto
      then show "path_exists ?w2 [d] = path_exists w [d]"
        by (simp add: path_exists_def files2 map_of_filter_key)
    qed
    have dir2: "\<And>d. d \<in> set names \<Longrightarrow> is_dir ?w2 [d] = is_dir w [d]"
    proof -
      fix d assume "d \<in> set names"
      then have "d \<noteq> a" using Cons.prems(1) by auto
      then show "is_dir ?w2 [d] = is_dir w [d]"
        by (simp add: is_dir_def files2 map_of_filter_key)
    qed
    have sw2: "swept ?w2 names = swept w names"
      unfolding swept_def by (rule filter_cong) (simp_all add: ex2)
    have sw: "swept w (a # names) = a # swept w names"
      using True by (simp add: swept_def)
    have p1: "distinct names" using Cons.prems(1) by simp
    have p2: "\<forall>d\<in>set names. path_exists ?w2 [d] \<longrightarrow> is_dir ?w2 [d]"
      using Cons.prems(2) by (simp add: ex2 dir2)
    have p3: "\<forall>d\<in>set names. \<forall>q. prefix [d] q \<longrightarrow> \<not> rm_denied h q"
      using Cons.prems(3) by simp
    have step: "remove_each ByRmtree quiet h (map (\<lambda>d. [d]) (a # names)) (w, c) =
                remove_each ByRmtree quiet h (map (\<lambda>d. [d]) names) (?w2, c + 1)"
      using True rm by simp
    show ?thesis
      unfolding step Cons.IH [OF p1 p2 p3] sw2 sw files2
      by (simp add: emit_def case_prod_unfold)
  qed
qed


lemma remove_each_absent:
  "\<forall>p\<in>set ps. \<not> path_exists w p \<Longrightarrow> remove_each k quiet h ps (w, c) = (w, c)"
  by (induction ps) auto

lemma existing_top:
  "filter (path_exists w) (map (\<lambda>d. [d]) names) = map (\<lambda>d. [d]) (swept w names)"
  by (simp add: swept_def filter_map comp_def)

text \<open>
  Claim C9.  The cache loop and the storage loop of the full reset are the loop
  \<open>remove_each ByRmtree\<close> over a list of distinct names directly under the data
  directory.  When every listed entry that exists is a directory and nothing below it
  refuses removal, the loop counts exactly the entries that existed, reports a removal
  for each of them and no failure, says nothing about the entries that did not exist,
  and leaves none of the listed entries behind; run again at once, it counts 0 and
  changes nothing.
\<close>

theorem apply_profile_idempotent:
  assumes "distinct names"
    and "\<forall>d\<in>set names. path_exists w [d] \<longrightarrow> is_dir w [d]"
    and "\<forall>d\<in>set names. \<forall>q. prefix [d] q \<longrightarrow> \<not> rm_denied h q"
  shows "snd (remove_each ByRmtree quiet h (map (\<lambda>d. [d]) names) (w, 0)) =
           length (filter (path_exists w) (map (\<lambda>d. [d]) names))
       \<and> journal (fst (remove_each ByRmtree quiet h (map (\<lambda>d. [d]) names) (w, 0))) =
           journal w @ (if quiet then []
                        else map Removed (filter (path_exists w) (map (\<lambda>d. [d]) names)))
       \<and> (\<forall>p\<in>set (map (\<lambda>d. [d]) names).
             \<not> path_exists (fst (remove_each ByRmtree quiet h (map (\<lambda>d. [d]) names) (w, 0))) p)
       \<and> remove_each ByRmtree quiet h (map (\<lambda>d. [d]) names)
             (fst (remove_each ByRmtree quiet h (map (\<lambda>d. [d]) names) (w, 0)), 0) =
           (fst (remove_each ByRmtree quiet h (map (\<lambda>d. [d]) names) (w, 0)), 0)"
proof -
  let ?P = "map (\<lambda>d. [d]) names"
  let ?w' = "w\<lparr>files := filter (\<lambda>(q, n). \<not> (\<exists>d\<in>set (swept w names). prefix [d] q)) (files w),
              trace := trace w @ map (\<lambda>d. Rmtree [d]) (swept w names),
              journal := journal w @ (if quiet then [] else map (\<lambda>d. Removed [d]) (swept w names))\<rparr>"
  have run: "remove_each ByRmtree quiet h ?P (w, 0) = (?w', 0 + length (swept w names))"
    by (rule remove_each_rmtree_top [OF assms])
  have count: "snd (remove_each ByRmtree quiet h ?P (w, 0)) = length (filter (path_exists w) ?P)"
    by (simp add: run existing_top)
  have jour: "journal (fst (remove_each ByRmtree quiet h ?P (w, 0))) =
           journal w @ (if quiet then [] else map Removed (filter (path_exists w) ?P))"
    by (simp add: run existing_top)
  have gone: "\<forall>p\<in>set ?P. \<not> path_exists ?w' p"
  proof
    fix p assume "p \<in> set ?P"
    then obtain d where d: "d \<in> set names" "p = [d]" by auto
    show "\<not> path_exists ?w' p"
    proof (cases "path_exists w [d]")
      case True
      then have "d \<in> set (swept w names)" using d by (simp add: swept_def)
      then show ?thesis
        using d by (auto simp: path_exists_def map_of_filter_key)
    next
      case False
      then show ?thesis
        using d by (simp add: path_exists_def map_of_filter_key)
    qed
  qed
  have again: "remove_each ByRmtree quiet h ?P (?w', 0) = (?w', 0)"
    by (rule remove_each_absent [OF gone])
  show ?thesis
    using count jour gone again by (simp add: run)
qed

theorem apply_profile_idempotent_witness:
  "distinct cache_dirs
   \<and> path_exists (world_of example_files) [''Cache'']
   \<and> is_dir (world_of example_files) [''Cache'']
   \<and> \<not> path_exists (world_of example_files) [''GPUCache'']
   \<and> snd (remove_each ByRmtree False example_host (map (\<lambda>d. [d]) cache_dirs)
            (world_of example_files, 0)) = 1
   \<and> journal (fst (remove_each ByRmtree False example_host (map (\<lambda>d. [d]) cache_dirs)
                     (world_of example_files, 0))) = [Removed [''Cache'']]
   \<and> \<not> path_exists (fst (remove_each ByRmtree False example_host (map (\<lambda>d. [d]) cache_dirs)
                             (world_of example_files, 0))) [''Cache'']
   \<and> remove_each ByRmtree False example_host (map (\<lambda>d. [d]) cache_dirs)
         (fst (remove_each ByRmtree False example_host (map (\<lambda>d. [d]) cache_dirs)
                 (world_of example_files, 0)), 0) =
       (fst (remove_each ByRmtree False example_host (map (\<lambda>d. [d]) cache_dirs)
               (world_of example_files, 0)), 0)"
proof -
  have a: "distinct cache_dirs" by (simp add: cache_dirs_def)
  have b: "\<forall>d\<in>set cache_dirs. path_exists (world_of example_files) [d] \<longrightarrow>
             is_dir (world_of example_files) [d]"
    by (simp add: cache_dirs_def path_exists_def is_dir_def world_of_def example_files_def)
  have c: "\<forall>d\<in>set cache_dirs. \<forall>q. prefix [d] q \<longrightarrow> \<not> rm_denied example_host q"
    by (simp add: example_host_def)
  have e: "filter (path_exists (world_of example_files)) (map (\<lambda>d. [d]) cache_dirs) = [[''Cache'']]"
    by (simp add: cache_dirs_def path_exists_def world_of_def example_files_def)
  have f: "path_exists (world_of example_files) [''Cache''] \<and>
           is_dir (world_of example_files) [''Cache''] \<and>
           \<not> path_exists (world_of example_files) [''GPUCache'']"
    by (simp add: path_exists_def is_dir_def world_of_def example_files_def)
  have g: "''Cache'' \<in> set cache_dirs"
    by (simp add: cache_dirs_def)
  have j: "journal (world_of example_files) = []" by (simp add: world_of_def)
  show ?thesis
    using apply_profile_idempotent [OF a b c, where quiet = False] a f g
    by (auto simp: e j)
qed

section \<open>Properties of the chat history purge and the trace\<close>

lemma contains_iff_sublist: "contains sub s \<longleftrightarrow> sublist sub s"
  by (induction s) (auto simp: sublist_Cons_right)

lemma sublist_map_iff: "sublist ys (map f xs) \<longleftrightarrow> (\<exists>u. sublist u xs \<and> map f u = ys)"
proof
  assume "sublist ys (map f xs)"
  then obtain ps ss where "map f xs = ps @ ys @ ss" by (auto simp: sublist_def)
  then obtain a r where ar: "xs = a @ r" "map f r = ys @ ss"
    by (metis append_eq_map_conv)
  then obtain b c where "r = b @ c" "map f b = ys"
    by (metis append_eq_map_conv)
  then have "xs = a @ b @ c" "map f b = ys" using ar by simp_all
  then show "\<exists>u. sublist u xs \<and> map f u = ys" by (auto simp: sublist_def)
next
  assume "\<exists>u. sublist u xs \<and> map f u = ys"
  then obtain u ps ss where "xs = ps @ u @ ss" "map f u = ys" by (auto simp: sublist_def)
  then have "map f xs = map f ps @ ys @ map f ss" by simp
  then show "sublist ys (map f xs)" unfolding sublist_def by blast
qed

lemma contains_lower:
  "contains pat (lower key) \<longleftrightarrow> (\<exists>u. sublist u key \<and> lower u = pat)"
  by (simp add: contains_iff_sublist lower_def sublist_map_iff)

lemma chat_key_iff:
  "chat_key key \<longleftrightarrow>
     (\<exists>pat\<in>set [''chat'', ''conversation'', ''history'', ''session''].
        \<exists>u. sublist u key \<and> lower u = pat)"
  unfolding chat_key_def contains_lower by auto

lemma del_keys_obj:
  "distinct ks \<Longrightarrow> set ks \<subseteq> fst ` set d \<Longrightarrow>
     del_keys (JObj d) ks w =
       (Inr (JObj (filter (\<lambda>(k, v). k \<notin> set ks) d)),
        w\<lparr>journal := journal w @ map ConfigKeyRemoved ks\<rparr>)"
proof (induction ks arbitrary: d w)
  case Nil
  then show ?case by simp
next
  case (Cons k ks)
  have k: "k \<in> fst ` set d" using Cons.prems(2) by simp
  have sub: "set ks \<subseteq> fst ` set (AList.delete k d)"
  proof
    fix x assume x: "x \<in> set ks"
    then have "x \<noteq> k" using Cons.prems(1) by auto
    moreover obtain v where "(x, v) \<in> set d" using x Cons.prems(2) by auto
    ultimately have "(x, v) \<in> set (AList.delete k d)" by (simp add: AList.delete_eq)
    then show "x \<in> fst ` set (AList.delete k d)" by force
  qed
  have d: "distinct ks" using Cons.prems(1) by simp
  have flt: "filter (\<lambda>(k', v). k' \<notin> set ks) (AList.delete k d) =
             filter (\<lambda>(k', v). k' \<notin> set (k # ks)) d"
    by (induction d) auto
  show ?case
    using k by (simp add: Cons.IH [OF d sub] flt emit_def)
qed

lemma filter_chat_keys:
  "filter (\<lambda>(k, v). k \<notin> set (filter chat_key (map fst d))) d = filter (\<lambda>(k, v). \<not> chat_key k) d"
  by (rule filter_cong) (auto simp: image_iff)

lemma clear_chat_config_obj:
  assumes "map_of (files w) storage_json_file = Some (File (Json (JObj d)))"
    and "distinct (map fst d)"
    and "\<not> wr_denied h storage_json_file"
  shows "map_of (files (fst (clear_chat_config h (w, n)))) storage_json_file =
           Some (File (Json (JObj (filter (\<lambda>(k, v). \<not> chat_key k) d))))
       \<and> (\<forall>p. p \<noteq> storage_json_file \<longrightarrow>
             map_of (files (fst (clear_chat_config h (w, n)))) p = map_of (files w) p)"
proof (cases "filter chat_key (map fst d) = []")
  case True
  then have "\<forall>k\<in>set (map fst d). \<not> chat_key k" by (simp add: filter_empty_conv)
  then have same: "filter (\<lambda>(k, v). \<not> chat_key k) d = d"
    by (auto simp: filter_id_conv)
  show ?thesis
    using assms(1) True
    by (simp add: clear_chat_config_def path_exists_def load_json_def same)
next
  case False
  have dk: "distinct (filter chat_key (map fst d))" using assms(2) by simp
  have sub: "set (filter chat_key (map fst d)) \<subseteq> fst ` set d" by auto
  have del: "del_keys (JObj d) (filter chat_key (map fst d)) w =
       (Inr (JObj (filter (\<lambda>(k, v). \<not> chat_key k) d)),
        w\<lparr>journal := journal w @ map ConfigKeyRemoved (filter chat_key (map fst d))\<rparr>)"
    unfolding del_keys_obj [OF dk sub] filter_chat_keys ..
  show ?thesis
    using assms(1,3) False
    by (simp add: clear_chat_config_def path_exists_def load_json_def
          del write_file_def update_conv' del: set_filter)
qed

lemma extends_refl [simp]: "extends P w w"
  by (simp add: extends_def)

lemma extends_trans: "extends P a b \<Longrightarrow> extends P b c \<Longrightarrow> extends P a c"
  by (auto simp: extends_def)

lemma extends_same_trace: "trace b = trace a \<Longrightarrow> extends P a b"
  by (simp add: extends_def)

lemma extends_emit [simp]: "extends P w (emit quiet ev w') = extends P w w'"
  by (simp add: extends_def emit_def)

lemma extends_emit_left [simp]: "extends P (emit quiet ev w) w' = extends P w w'"
  by (simp add: extends_def emit_def)

lemma shrinks_refl [simp]: "shrinks w w"
  by (simp add: shrinks_def)

lemma shrinks_trans: "shrinks a b \<Longrightarrow> shrinks b c \<Longrightarrow> shrinks a c"
  unfolding shrinks_def by metis

lemma shrinks_emit [simp]: "shrinks w (emit quiet ev w') = shrinks w w'"
  by (simp add: shrinks_def emit_def)

lemma shrinks_emit_left [simp]: "shrinks (emit quiet ev w) w' = shrinks w w'"
  by (simp add: shrinks_def emit_def)

lemma files_emit [simp]: "files (emit quiet ev w) = files w"
  by (simp add: emit_def)

lemma trace_emit [simp]: "trace (emit quiet ev w) = trace w"
  by (simp add: emit_def)

lemma path_exists_emit [simp]: "path_exists (emit quiet ev w) p = path_exists w p"
  by (simp add: path_exists_def)

lemma is_dir_emit [simp]: "is_dir (emit quiet ev w) p = is_dir w p"
  by (simp add: is_dir_def)


lemma remove_Inr:
  assumes "remove k h p w = Inr w'"
  shows "trace w' = trace w @ [removal k p]"
    and "shrinks w w'"
    and "\<not> prefix p q \<Longrightarrow> map_of (files w') q = map_of (files w) q"
proof -
  show "trace w' = trace w @ [removal k p]"
    using assms
    by (cases k) (auto simp: remove_def removal_def rmtree_def unlink_def
                       split: option.splits node.splits if_splits)
  show "shrinks w w'"
    using assms
    by (cases k) (auto simp: remove_def rmtree_def unlink_def shrinks_def map_of_filter_key
                             delete_conv'
                       split: option.splits node.splits if_splits)
  show "\<not> prefix p q \<Longrightarrow> map_of (files w') q = map_of (files w) q"
    using assms
    by (cases k) (auto simp: remove_def rmtree_def unlink_def map_of_filter_key delete_conv'
                       split: option.splits node.splits if_splits)
qed

lemma remove_each_extends:
  "\<forall>p\<in>set ps. P (removal k p) \<Longrightarrow> extends P (fst s) (fst (remove_each k quiet h ps s))"
proof (induction ps arbitrary: s)
  case Nil
  then show ?case by (cases s) simp
next
  case (Cons p ps)
  obtain w n where s: "s = (w, n)" by (cases s)
  have rest: "\<forall>p\<in>set ps. P (removal k p)" using Cons.prems by simp
  have here: "P (removal k p)" using Cons.prems by simp
  show ?case
  proof (cases "path_exists w p")
    case False
    then show ?thesis using Cons.IH [OF rest, of "(w, n)"] by (simp add: s)
  next
    case True
    show ?thesis
    proof (cases "remove k h p w")
      case (Inl e)
      then show ?thesis
        using True Cons.IH [OF rest, of "(emit quiet (RemoveFailed p e) w, n)"] by (simp add: s)
    next
      case (Inr w1)
      have one: "extends P w w1"
        using remove_Inr(1) [OF Inr] here by (simp add: extends_def)
      show ?thesis
        using True Inr Cons.IH [OF rest, of "(emit quiet (Removed p) w1, n + 1)"] one
        by (auto simp: s intro: extends_trans)
    qed
  qed
qed

lemma remove_each_shrinks: "shrinks (fst s) (fst (remove_each k quiet h ps s))"
proof (induction ps arbitrary: s)
  case Nil
  then show ?case by (cases s) simp
next
  case (Cons p ps)
  obtain w n where s: "s = (w, n)" by (cases s)
  show ?case
  proof (cases "path_exists w p")
    case False
    then show ?thesis using Cons.IH [of "(w, n)"] by (simp add: s)
  next
    case True
    show ?thesis
    proof (cases "remove k h p w")
      case (Inl e)
      then show ?thesis
        using True Cons.IH [of "(emit quiet (RemoveFailed p e) w, n)"] by (simp add: s)
    next
      case (Inr w1)
      show ?thesis
        using True Inr Cons.IH [of "(emit quiet (Removed p) w1, n + 1)"] remove_Inr(2) [OF Inr]
        by (auto simp: s intro: shrinks_trans)
    qed
  qed
qed

lemma remove_each_keeps:
  "\<forall>p\<in>set ps. \<not> prefix p q \<Longrightarrow>
     map_of (files (fst (remove_each k quiet h ps s))) q = map_of (files (fst s)) q"
proof (induction ps arbitrary: s)
  case Nil
  then show ?case by (cases s) simp
next
  case (Cons p ps)
  obtain w n where s: "s = (w, n)" by (cases s)
  have rest: "\<forall>p\<in>set ps. \<not> prefix p q" using Cons.prems by simp
  have here: "\<not> prefix p q" using Cons.prems by simp
  show ?case
  proof (cases "path_exists w p")
    case False
    then show ?thesis using Cons.IH [OF rest, of "(w, n)"] by (simp add: s)
  next
    case True
    show ?thesis
    proof (cases "remove k h p w")
      case (Inl e)
      then show ?thesis
        using True Cons.IH [OF rest, of "(emit quiet (RemoveFailed p e) w, n)"] by (simp add: s)
    next
      case (Inr w1)
      show ?thesis
        using True Inr Cons.IH [OF rest, of "(emit quiet (Removed p) w1, n + 1)"]
          remove_Inr(3) [OF Inr here]
        by (simp add: s)
    qed
  qed
qed













lemma iterdir_form:
  "d \<in> set (iterdir w [''User'', ''workspaceStorage'']) \<Longrightarrow>
     \<exists>x. d = [''User'', ''workspaceStorage'', x]"
proof -
  assume "d \<in> set (iterdir w [''User'', ''workspaceStorage''])"
  then have len: "length d = 3" and pre: "prefix [''User'', ''workspaceStorage''] d"
    by (auto simp: iterdir_def)
  from pre obtain r where r: "d = [''User'', ''workspaceStorage''] @ r"
    by (auto simp: prefix_def)
  with len have "length r = 1" by simp
  then obtain x where "r = [x]" by (cases r) auto
  with r show ?thesis by simp
qed

lemma clear_workspaces_extends:
  assumes "\<And>d. d \<in> set ds \<Longrightarrow>
             P (Rmtree (d @ [''chatSessions''])) \<and> P (Rmtree (d @ [''chatEditingSessions'']))"
  shows "extends P (fst s) (fst (clear_workspaces h ds s))"
  using assms
proof (induction ds arbitrary: s)
  case Nil
  then show ?case by (cases s) simp
next
  case (Cons d ds)
  obtain w n where s: "s = (w, n)" by (cases s)
  let ?a = "remove_each ByRmtree False h [d @ [''chatSessions'']] (w, n)"
  let ?b = "remove_each ByRmtree False h [d @ [''chatEditingSessions'']] ?a"
  have a: "extends P (fst (w, n)) (fst ?a)"
    by (rule remove_each_extends) (simp add: removal_def Cons.prems)
  have b: "extends P (fst ?a) (fst ?b)"
    by (rule remove_each_extends) (simp add: removal_def Cons.prems)
  have r1: "extends P (fst ?b) (fst (clear_workspaces h ds ?b))"
    by (rule Cons.IH) (simp add: Cons.prems)
  have r2: "extends P (fst (w, n)) (fst (clear_workspaces h ds (w, n)))"
    by (rule Cons.IH) (simp add: Cons.prems)
  show ?case
  proof (cases "is_dir w d")
    case True
    then show ?thesis
      using a b r1 by (auto simp: s Let_def intro: extends_trans)
  next
    case False
    then show ?thesis using r2 by (simp add: s)
  qed
qed

lemma clear_workspaces_shrinks: "shrinks (fst s) (fst (clear_workspaces h ds s))"
proof (induction ds arbitrary: s)
  case Nil
  then show ?case by (cases s) simp
next
  case (Cons d ds)
  obtain w n where s: "s = (w, n)" by (cases s)
  let ?a = "remove_each ByRmtree False h [d @ [''chatSessions'']] (w, n)"
  let ?b = "remove_each ByRmtree False h [d @ [''chatEditingSessions'']] ?a"
  have a: "shrinks (fst (w, n)) (fst ?a)" by (rule remove_each_shrinks)
  have b: "shrinks (fst ?a) (fst ?b)" by (rule remove_each_shrinks)
  have r1: "shrinks (fst ?b) (fst (clear_workspaces h ds ?b))" by (rule Cons.IH)
  have r2: "shrinks (fst (w, n)) (fst (clear_workspaces h ds (w, n)))" by (rule Cons.IH)
  show ?case
  proof (cases "is_dir w d")
    case True
    then show ?thesis
      using a b r1 by (auto simp: s Let_def intro: shrinks_trans)
  next
    case False
    then show ?thesis using r2 by (simp add: s)
  qed
qed

lemma clear_workspaces_keeps:
  assumes "\<And>d c. d \<in> set ds \<Longrightarrow> \<not> prefix (d @ [c]) q"
  shows "map_of (files (fst (clear_workspaces h ds s))) q = map_of (files (fst s)) q"
  using assms
proof (induction ds arbitrary: s)
  case Nil
  then show ?case by (cases s) simp
next
  case (Cons d ds)
  obtain w n where s: "s = (w, n)" by (cases s)
  let ?a = "remove_each ByRmtree False h [d @ [''chatSessions'']] (w, n)"
  let ?b = "remove_each ByRmtree False h [d @ [''chatEditingSessions'']] ?a"
  have a: "map_of (files (fst ?a)) q = map_of (files (fst (w, n))) q"
    by (rule remove_each_keeps) (simp add: Cons.prems)
  have b: "map_of (files (fst ?b)) q = map_of (files (fst ?a)) q"
    by (rule remove_each_keeps) (simp add: Cons.prems)
  have r1: "map_of (files (fst (clear_workspaces h ds ?b))) q = map_of (files (fst ?b)) q"
    by (rule Cons.IH) (simp add: Cons.prems)
  have r2: "map_of (files (fst (clear_workspaces h ds (w, n)))) q = map_of (files (fst (w, n))) q"
    by (rule Cons.IH) (simp add: Cons.prems)
  show ?case
  proof (cases "is_dir w d")
    case True
    then show ?thesis
      using a b r1 by (simp add: s Let_def)
  next
    case False
    then show ?thesis using r2 by (simp add: s)
  qed
qed





lemma clear_chat_history_cases:
  "(path_exists w [''User'', ''workspaceStorage''] \<and> \<not> is_dir w [''User'', ''workspaceStorage''] \<and>
    clear_chat_history h w = emit False (ChatFailed NotADirectoryError) w)
   \<or> (\<exists>s3. (\<not> path_exists w [''User'', ''workspaceStorage''] \<or> is_dir w [''User'', ''workspaceStorage'']) \<and>
          clear_chat_history h w =
            emit False (ChatCleared (snd (clear_chat_config h s3))) (fst (clear_chat_config h s3)) \<and>
          extends chat_action w (fst s3) \<and>
          extends is_removal w (fst s3) \<and>
          shrinks w (fst s3) \<and>
          map_of (files (fst s3)) storage_json_file = map_of (files w) storage_json_file)"
proof (cases "path_exists w [''User'', ''workspaceStorage''] \<and> \<not> is_dir w [''User'', ''workspaceStorage'']")
  case True
  then show ?thesis by (simp add: clear_chat_history_def)
next
  case False
  let ?ws = "[''User'', ''workspaceStorage'']"
  let ?s1 = "if path_exists w ?ws then clear_workspaces h (iterdir w ?ws) (w, 0) else (w, 0)"
  let ?s2 = "remove_each ByRmtree False h [[''User'', ''History'']] ?s1"
  let ?s3 = "remove_each ByRmtree False h [[''Session Storage'']] ?s2"
  have eq: "clear_chat_history h w =
            emit False (ChatCleared (snd (clear_chat_config h ?s3))) (fst (clear_chat_config h ?s3))"
    using False by (auto simp: clear_chat_history_def Let_def)
  have c1: "extends chat_action (fst (w, 0 :: nat)) (fst (clear_workspaces h (iterdir w ?ws) (w, 0)))"
    by (rule clear_workspaces_extends) (auto simp: chat_action_def dest!: iterdir_form)
  have c2: "extends chat_action (fst ?s1) (fst ?s2)"
    by (rule remove_each_extends) (simp add: chat_action_def removal_def)
  have c3: "extends chat_action (fst ?s2) (fst ?s3)"
    by (rule remove_each_extends) (simp add: chat_action_def removal_def)
  have c: "extends chat_action w (fst ?s3)"
    using c1 c2 c3 by (auto intro: extends_trans split: if_splits)
  have r1: "extends is_removal (fst (w, 0 :: nat)) (fst (clear_workspaces h (iterdir w ?ws) (w, 0)))"
    by (rule clear_workspaces_extends) simp
  have r2: "extends is_removal (fst ?s1) (fst ?s2)"
    by (rule remove_each_extends) (simp add: removal_def)
  have r3: "extends is_removal (fst ?s2) (fst ?s3)"
    by (rule remove_each_extends) (simp add: removal_def)
  have r: "extends is_removal w (fst ?s3)"
    using r1 r2 r3 by (auto intro: extends_trans split: if_splits)
  have h1: "shrinks (fst (w, 0 :: nat)) (fst (clear_workspaces h (iterdir w ?ws) (w, 0)))"
    by (rule clear_workspaces_shrinks)
  have h2: "shrinks (fst ?s1) (fst ?s2)" by (rule remove_each_shrinks)
  have h3: "shrinks (fst ?s2) (fst ?s3)" by (rule remove_each_shrinks)
  have sh: "shrinks w (fst ?s3)"
    using h1 h2 h3 by (auto intro: shrinks_trans split: if_splits)
  have k1: "map_of (files (fst (clear_workspaces h (iterdir w ?ws) (w, 0)))) storage_json_file =
            map_of (files (fst (w, 0 :: nat))) storage_json_file"
    by (rule clear_workspaces_keeps) (auto simp: storage_json_file_def dest!: iterdir_form)
  have k2: "map_of (files (fst ?s2)) storage_json_file = map_of (files (fst ?s1)) storage_json_file"
    by (rule remove_each_keeps) (simp add: storage_json_file_def)
  have k3: "map_of (files (fst ?s3)) storage_json_file = map_of (files (fst ?s2)) storage_json_file"
    by (rule remove_each_keeps) (simp add: storage_json_file_def)
  have k: "map_of (files (fst ?s3)) storage_json_file = map_of (files w) storage_json_file"
    using k1 k2 k3 by (auto split: if_splits)
  show ?thesis
    using False eq c r sh k by blast
qed



text \<open>
  Claim C4.  Applied to a \<open>storage.json\<close> that holds a JSON object, the purge stores the
  object without the entries whose key is a chat key, every other entry as it was and in
  its place, and touches no other file.  A key is a chat key exactly when some substring
  of it is, up to case, one of chat, conversation, history, session.  This holds for the
  key-stripping step, and for the whole of \<open>clear_chat_history\<close> when the workspace
  storage is absent or a directory.
\<close>

theorem chat_history_purge_keys:
  assumes "map_of (files w) storage_json_file = Some (File (Json (JObj d)))"
    and "distinct (map fst d)"
    and "\<not> wr_denied h storage_json_file"
  shows "map_of (files (fst (clear_chat_config h (w, n)))) storage_json_file =
           Some (File (Json (JObj (filter (\<lambda>(k, v). \<not> chat_key k) d))))
       \<and> (\<forall>key. chat_key key \<longleftrightarrow>
             (\<exists>pat\<in>set [''chat'', ''conversation'', ''history'', ''session''].
                \<exists>u. sublist u key \<and> lower u = pat))
       \<and> (\<not> path_exists w [''User'', ''workspaceStorage''] \<or> is_dir w [''User'', ''workspaceStorage'']
            \<longrightarrow> map_of (files (clear_chat_history h w)) storage_json_file =
                  Some (File (Json (JObj (filter (\<lambda>(k, v). \<not> chat_key k) d)))))"
proof -
  have a: "map_of (files (fst (clear_chat_config h (w, n)))) storage_json_file =
           Some (File (Json (JObj (filter (\<lambda>(k, v). \<not> chat_key k) d))))"
    using clear_chat_config_obj [OF assms] by simp
  have b: "\<forall>key. chat_key key \<longleftrightarrow>
             (\<exists>pat\<in>set [''chat'', ''conversation'', ''history'', ''session''].
                \<exists>u. sublist u key \<and> lower u = pat)"
    using chat_key_iff by blast
  have c: "map_of (files (clear_chat_history h w)) storage_json_file =
                  Some (File (Json (JObj (filter (\<lambda>(k, v). \<not> chat_key k) d))))"
    if ok: "\<not> path_exists w [''User'', ''workspaceStorage''] \<or> is_dir w [''User'', ''workspaceStorage'']"
  proof -
    from clear_chat_history_cases [of w h] ok obtain s3 where
      eq: "clear_chat_history h w =
            emit False (ChatCleared (snd (clear_chat_config h s3))) (fst (clear_chat_config h s3))"
      and k: "map_of (files (fst s3)) storage_json_file = map_of (files w) storage_json_file"
      by blast
    have f: "map_of (files (fst s3)) storage_json_file = Some (File (Json (JObj d)))"
      using k assms(1) by simp
    have "map_of (files (fst (clear_chat_config h (fst s3, snd s3)))) storage_json_file =
           Some (File (Json (JObj (filter (\<lambda>(k, v). \<not> chat_key k) d))))"
      using clear_chat_config_obj [OF f assms(2,3), of "snd s3"] by simp
    then show ?thesis by (simp add: eq)
  qed
  show ?thesis using a b c by blast
qed

lemma chat_object_filtered:
  "filter (\<lambda>(k, v). \<not> chat_key k) chat_object =
     [(''telemetry.machineId'', JStr ''x''), (''other'', JBool True)]"
  by code_simp

theorem chat_history_purge_keys_witness:
  "map_of (files (world_of chat_files)) storage_json_file = Some (File (Json (JObj chat_object)))
   \<and> distinct (map fst chat_object)
   \<and> \<not> wr_denied example_host storage_json_file
   \<and> \<not> path_exists (world_of chat_files) [''User'', ''workspaceStorage'']
   \<and> map_of (files (fst (clear_chat_config example_host (world_of chat_files, 0)))) storage_json_file =
       Some (File (Json (JObj [(''telemetry.machineId'', JStr ''x''), (''other'', JBool True)])))
   \<and> map_of (files (clear_chat_history example_host (world_of chat_files))) storage_json_file =
       Some (File (Json (JObj [(''telemetry.machineId'', JStr ''x''), (''other'', JBool True)])))"
proof -
  have a: "map_of (files (world_of chat_files)) storage_json_file = Some (File (Json (JObj chat_object)))"
    by (simp add: world_of_def chat_files_def storage_json_file_def)
  have b: "distinct (map fst chat_object)" by (simp add: chat_object_def)
  have c: "\<not> wr_denied example_host storage_json_file" by (simp add: example_host_def)
  have d: "\<not> path_exists (world_of chat_files) [''User'', ''workspaceStorage'']"
    by (simp add: path_exists_def world_of_def chat_files_def)
  show ?thesis
    using chat_history_purge_keys [OF a b c, of 0] a b c d
    by (simp add: chat_object_filtered)
qed








section \<open>Properties of the full reset\<close>


text \<open>
  The end-to-end example of the specification: with chat preserved, the machine-ID
  file gets a new UUID, \<open>storage.json\<close> gets new identifiers and keeps \<open>other\<close>, and
  \<open>Cache\<close> is gone.
\<close>

lemma end_to_end_example:
  "map_sum id (\<lambda>v. (files v, trace v)) (perform_full_reset example_host True (world_of example_files)) =
     Inr ([([], Dir),
           ([''machineid''], File (Text (str_uuid (uuid4 0)))),
           ([''User''], Dir),
           ([''User'', ''globalStorage''], Dir),
           ([''User'', ''globalStorage'', ''storage.json''],
              File (Json (JObj [(''telemetry.machineId'', JStr (hexdigest 0)),
                                (''telemetry.devDeviceId'', JStr (str_uuid (uuid4 2))),
                                (''other'', JNum 1)])))],
          [Write machine_id_file (Text (str_uuid (uuid4 0))),
           Write storage_json_file
             (Json (JObj [(''telemetry.machineId'', JStr (hexdigest 0)),
                          (''telemetry.devDeviceId'', JStr (str_uuid (uuid4 2))),
                          (''other'', JNum 1)])),
           Rmtree [''Cache'']])"
  by code_simp




end
